theory Spec2Isabelle
  imports Complex_Main
begin

section \<open>Data model (src/types/index.ts)\<close>

text \<open>
  A JavaScript value as far as the code inspects one: the entries of a \<open>Value\<close> array are
  typed \<open>unknown\<close>, and the field \<open>SeriesInstanceUID\<close> of a series descriptor is read from
  an \<open>any\<close>. Only \<open>typeof\<close> is ever applied to such a value.
\<close>

datatype jsvalue =
    JUndefined
  | JNull
  | JBoolean bool
  | JNumber rat
  | JString string
  | JArray "jsvalue list"
  | JObject "(string \<times> jsvalue) list"

fun typeof :: "jsvalue \<Rightarrow> string" where
  "typeof JUndefined = ''undefined''"
| "typeof JNull = ''object''"
| "typeof (JBoolean b) = ''boolean''"
| "typeof (JNumber n) = ''number''"
| "typeof (JString s) = ''string''"
| "typeof (JArray xs) = ''object''"
| "typeof (JObject kvs) = ''object''"

text \<open>The narrowing that TypeScript performs after \<open>typeof v === 'string'\<close>.\<close>

fun narrow_string :: "jsvalue \<Rightarrow> string option" where
  "narrow_string (JString s) = Some s"
| "narrow_string _ = None"

text \<open>
  \<open>interface DicomWebSeries { [key: string]: { Value?: unknown[]; vr?: string } }\<close>:
  an object indexed by tag key; both fields of an entry are optional.
\<close>

record tag_value =
  Value :: "jsvalue list option"
  vr :: "string option"

type_synonym DicomWebSeries = "string \<Rightarrow> tag_value option"

text \<open>\<open>interface CaseBundle\<close>, with its nested object types.\<close>

record urinalysis_t =
  culture :: string
  result :: string

record labResults_t =
  urinalysis :: "urinalysis_t option"

record patient_t =
  patient_id :: string
  name :: string
  species :: string
  breed :: "string option"
  ageYears :: rat
  weightKg :: "rat option"
  sex :: string

record imaging_t =
  imaging_studyInstanceUid :: string
  series :: "string list"
  sedationProtocol :: "string option"

record CaseBundle =
  studyInstanceUid :: string
  patient :: patient_t
  history :: string
  labResults :: labResults_t
  imaging :: imaging_t

section \<open>The record store (src/mock-db/cases.ts)\<close>

text \<open>
  \<open>caseBundles\<close> is a module-level object: one table for the whole process. The table a
  request sees is therefore a state, passed to the handler and returned by it; the
  constant \<open>caseBundles\<close> is the table as the module creates it, its four records named
  after their patient ids.
\<close>

type_synonym store = "string \<Rightarrow> CaseBundle option"

definition case_P004 :: CaseBundle where
  "case_P004 =
     \<lparr>studyInstanceUid = ''1.3.6.1.4.1.14519.5.2.1.2193.7172.847236098565581057121195872945'',
      patient = \<lparr>patient_id = ''P004'', name = ''Luna'', species = ''Canine'',
                 breed = Some ''Mixed Breed'', ageYears = 3, weightKg = Some (187 / 10),
                 sex = ''FS''\<rparr>,
      history = ''Routine chest radiographs for pre-anesthetic screening. No clinical signs.'',
      labResults = \<lparr>urinalysis = None\<rparr>,
      imaging = \<lparr>imaging_studyInstanceUid =
                   ''1.3.6.1.4.1.14519.5.2.1.2193.7172.847236098565581057121195872945'',
                 series = [],
                 sedationProtocol = Some ''None required (conscious radiographs)''\<rparr>\<rparr>"

definition case_P001 :: CaseBundle where
  "case_P001 =
     \<lparr>studyInstanceUid = ''1.2.826.0.1.3680043.8.1055.1.20111103111148288.98361414.79379639'',
      patient = \<lparr>patient_id = ''P001'', name = ''Fluffy'', species = ''Feline'',
                 breed = Some ''Domestic Shorthair'', ageYears = 10, weightKg = Some (42 / 10),
                 sex = ''FS''\<rparr>,
      history = ''Straining to urinate, suspected UTI. Owner reports vocalizing when using litter box.'',
      labResults = \<lparr>urinalysis = Some \<lparr>culture = ''E. coli'', result = ''Positive''\<rparr>\<rparr>,
      imaging = \<lparr>imaging_studyInstanceUid =
                   ''1.2.826.0.1.3680043.8.1055.1.20111103111148288.98361414.79379639'',
                 series = [],
                 sedationProtocol = Some ''Dexmedetomidine 5 mcg/kg IM''\<rparr>\<rparr>"

definition case_P002 :: CaseBundle where
  "case_P002 =
     \<lparr>studyInstanceUid = ''123'',
      patient = \<lparr>patient_id = ''P002'', name = ''Max'', species = ''Canine'',
                 breed = Some ''Golden Retriever'', ageYears = 5, weightKg = Some (325 / 10),
                 sex = ''M''\<rparr>,
      history = ''Limping on right hind leg for 3 days. No known trauma. Possible CCL tear (common in breed).'',
      labResults = \<lparr>urinalysis = None\<rparr>,
      imaging = \<lparr>imaging_studyInstanceUid = ''123'',
                 series = [''SERIES_UID_1'', ''SERIES_UID_2''],
                 sedationProtocol = Some ''Propofol 6 mg/kg IV for positioning''\<rparr>\<rparr>"

definition case_P003 :: CaseBundle where
  "case_P003 =
     \<lparr>studyInstanceUid = ''2.16.840.1.113669.632.20.1211.10000357775'',
      patient = \<lparr>patient_id = ''P003'', name = ''Buddy'', species = ''Canine'',
                 breed = Some ''Labrador Retriever'', ageYears = 7, weightKg = Some (283 / 10),
                 sex = ''M''\<rparr>,
      history = ''Persistent cough for 2 weeks, exercise intolerance. Rule out cardiac disease vs respiratory pathology.'',
      labResults = \<lparr>urinalysis = None\<rparr>,
      imaging = \<lparr>imaging_studyInstanceUid = ''2.16.840.1.113669.632.20.1211.10000357775'',
                 series = [''1.3.46.670589.11.0.0.11.4.2.0.8743.5.5396.2006120114285654497'',
                           ''1.3.46.670589.11.0.0.11.4.2.0.8743.5.5396.2006120114314125550'',
                           ''1.3.46.670589.11.0.0.11.4.2.0.8743.5.5396.2006120114262848496''],
                 sedationProtocol =
                   Some ''None (cooperative patient, conscious radiographs)''\<rparr>\<rparr>"

definition caseBundles :: store where
  "caseBundles = map_of
    [(''1.3.6.1.4.1.14519.5.2.1.2193.7172.847236098565581057121195872945'', case_P004),
     (''1.2.826.0.1.3680043.8.1055.1.20111103111148288.98361414.79379639'', case_P001),
     (''123'', case_P002),
     (''2.16.840.1.113669.632.20.1211.10000357775'', case_P003)]"

text \<open>
  \<open>findCaseByStudyUid\<close> returns \<open>caseBundles[studyInstanceUid]\<close>: the object held by the
  table itself, not a copy. \<open>None\<close> is \<open>undefined\<close>.
\<close>

definition findCaseByStudyUid :: "store \<Rightarrow> string \<Rightarrow> CaseBundle option" where
  "findCaseByStudyUid db uid = db uid"

section \<open>UID validation (src/utils/dicom.ts)\<close>

subsection \<open>Regular expressions\<close>

text \<open>
  The pattern language used by \<open>dicomUidRegex\<close>: character ranges, literal characters,
  sequencing, and the quantifiers \<open>+\<close> and \<open>*\<close>. \<open>Never\<close>, \<open>Empty\<close> and \<open>Alt\<close> are
  needed for the residuals of a pattern only. \<open>RegExp.prototype.test\<close> is modelled by
  residuals: the pattern left to match after each character read.
\<close>

datatype regex =
    Never
  | Empty
  | Lit char
  | Range char char
  | Seq regex regex
  | Alt regex regex
  | Star regex
  | Plus regex

definition in_range :: "char \<Rightarrow> char \<Rightarrow> char \<Rightarrow> bool" where
  "in_range lo hi c = ((of_char lo :: nat) \<le> of_char c \<and> (of_char c :: nat) \<le> of_char hi)"

fun nullable :: "regex \<Rightarrow> bool" where
  "nullable Never = False"
| "nullable Empty = True"
| "nullable (Lit c) = False"
| "nullable (Range lo hi) = False"
| "nullable (Seq r s) = (nullable r \<and> nullable s)"
| "nullable (Alt r s) = (nullable r \<or> nullable s)"
| "nullable (Star r) = True"
| "nullable (Plus r) = nullable r"

fun deriv :: "char \<Rightarrow> regex \<Rightarrow> regex" where
  "deriv c Never = Never"
| "deriv c Empty = Never"
| "deriv c (Lit d) = (if c = d then Empty else Never)"
| "deriv c (Range lo hi) = (if in_range lo hi c then Empty else Never)"
| "deriv c (Seq r s) =
     (if nullable r then Alt (Seq (deriv c r) s) (deriv c s) else Seq (deriv c r) s)"
| "deriv c (Alt r s) = Alt (deriv c r) (deriv c s)"
| "deriv c (Star r) = Seq (deriv c r) (Star r)"
| "deriv c (Plus r) = Seq (deriv c r) (Star r)"

text \<open>
  \<open>regex_test r s\<close> is \<open>/^r$/.test(s)\<close>: without the \<open>m\<close> flag the anchors \<open>^\<close> and \<open>$\<close>
  are the start and the end of the input, so the whole input has to match.
\<close>

fun regex_test :: "regex \<Rightarrow> string \<Rightarrow> bool" where
  "regex_test r [] = nullable r"
| "regex_test r (c # cs) = regex_test (deriv c r) cs"

text \<open>\<open>const dicomUidRegex = /^[0-9]+(\.[0-9]+)*$/\<close>\<close>

definition dicomUidRegex :: regex where
  "dicomUidRegex =
     Seq (Plus (Range CHR ''0'' CHR ''9''))
         (Star (Seq (Lit CHR ''.'') (Plus (Range CHR ''0'' CHR ''9''))))"

subsection \<open>isValidStudyInstanceUID\<close>

text \<open>
  The parameter is typed \<open>string\<close>, so \<open>!uid || typeof uid !== 'string'\<close> holds exactly for
  the empty string.
\<close>

definition isValidStudyInstanceUID :: "string \<Rightarrow> bool" where
  "isValidStudyInstanceUID uid =
     (if uid = [] then False
      else if length uid = 0 \<or> length uid > 64 then False
      else regex_test dicomUidRegex uid)"

subsection \<open>The grammar in words\<close>

text \<open>
  The language a pattern denotes, and the grammar of the specification: one or more
  digits, followed by zero or more groups of a single dot followed by one or more digits.
\<close>

inductive_set star :: "string set \<Rightarrow> string set" for A :: "string set" where
  star_nil: "[] \<in> star A"
| star_app: "u \<in> A \<Longrightarrow> v \<in> star A \<Longrightarrow> u @ v \<in> star A"

definition conc :: "string set \<Rightarrow> string set \<Rightarrow> string set" where
  "conc A B = {u @ v | u v. u \<in> A \<and> v \<in> B}"

fun lang :: "regex \<Rightarrow> string set" where
  "lang Never = {}"
| "lang Empty = {[]}"
| "lang (Lit c) = {[c]}"
| "lang (Range lo hi) = {[c] | c. in_range lo hi c}"
| "lang (Seq r s) = conc (lang r) (lang s)"
| "lang (Alt r s) = lang r \<union> lang s"
| "lang (Star r) = star (lang r)"
| "lang (Plus r) = conc (lang r) (star (lang r))"

definition digit :: "char \<Rightarrow> bool" where
  "digit c = (c \<in> set ''0123456789'')"

definition letter :: "char \<Rightarrow> bool" where
  "letter c = (in_range CHR ''a'' CHR ''z'' c \<or> in_range CHR ''A'' CHR ''Z'' c)"

definition digits1 :: "string \<Rightarrow> bool" where
  "digits1 s = (s \<noteq> [] \<and> (\<forall>c \<in> set s. digit c))"

definition dot_group :: "string \<Rightarrow> bool" where
  "dot_group g = (\<exists>e. g = CHR ''.'' # e \<and> digits1 e)"

definition uid_grammar :: "string \<Rightarrow> bool" where
  "uid_grammar s =
     (\<exists>d gs. digits1 d \<and> (\<forall>g \<in> set gs. dot_group g) \<and> s = d @ concat gs)"

section \<open>The archive service (services/orthancService)\<close>

subsection \<open>The network\<close>

text \<open>
  \<open>fetch\<close> either rejects (the connection fails, or \<open>AbortSignal.timeout(5000)\<close> aborts the
  call) or resolves to a response. A response has a status, and \<open>ok\<close> holds for the
  statuses 200 to 299. Reading its body with \<open>json()\<close> rejects (\<open>Unreadable\<close>) when the body
  is not JSON or the signal aborts while it is read; otherwise it gives \<open>null\<close> or a value,
  taken at the type the code casts it to (\<open>string[]\<close> for the find request, an array of
  series descriptors for the series request).
\<close>

datatype fault = ConnectionError | TimeoutError

datatype 'a body = Unreadable | JsonNull | Json 'a

record 'a response =
  status :: nat
  body :: "'a body"

definition ok :: "'a response \<Rightarrow> bool" where
  "ok r = (200 \<le> status r \<and> status r \<le> 299)"

text \<open>
  A series descriptor as the code reads it: \<open>series.MainDicomTags.SeriesInstanceUID\<close>.
  A descriptor without \<open>MainDicomTags\<close> makes that expression throw a TypeError; a missing
  \<open>SeriesInstanceUID\<close> is \<open>undefined\<close>.
\<close>

record main_tags =
  SeriesInstanceUID :: jsvalue

record series_descriptor =
  MainDicomTags :: "main_tags option"

text \<open>
  The two requests the service sends: \<open>POST url\<close> with the JSON body
  \<open>{Level, Query: {StudyInstanceUID}}\<close>, and \<open>GET url\<close>.
\<close>

record find_body =
  Level :: string
  StudyInstanceUID :: string

datatype request = POST string find_body | GET string

text \<open>
  The remote side: its answer to each of the two requests, which may depend on the
  requests sent before (a server can be down for one call and up for the next).
\<close>

record network =
  find_answer :: "request list \<Rightarrow> string \<Rightarrow> find_body \<Rightarrow> fault + string list response"
  series_answer :: "request list \<Rightarrow> string \<Rightarrow> fault + series_descriptor list response"

datatype js_error = FetchError fault | JsonError | TypeError

subsection \<open>fetchFromServer\<close>

text \<open>The callback of \<open>seriesObjects.map\<close>; a throw inside it leaves \<open>map\<close>.\<close>

definition toDicomWeb :: "series_descriptor \<Rightarrow> js_error + DicomWebSeries" where
  "toDicomWeb s =
     (case MainDicomTags s of
        None \<Rightarrow> Inl TypeError
      | Some tags \<Rightarrow>
          Inr (Map.empty(''0020000E'' \<mapsto> \<lparr>Value = Some [SeriesInstanceUID tags], vr = Some ''UI''\<rparr>)))"

fun map_throwing :: "('a \<Rightarrow> js_error + 'b) \<Rightarrow> 'a list \<Rightarrow> js_error + 'b list" where
  "map_throwing f [] = Inr []"
| "map_throwing f (x # xs) =
     (case f x of
        Inl e \<Rightarrow> Inl e
      | Inr y \<Rightarrow> (case map_throwing f xs of Inl e \<Rightarrow> Inl e | Inr ys \<Rightarrow> Inr (y # ys)))"

text \<open>
  The body of the \<open>try\<close> block. It returns what the block returns (\<open>None\<close> is \<open>null\<close>) or
  the error thrown inside it, together with the requests sent so far.
\<close>

definition fetchFromServer_try ::
  "network \<Rightarrow> request list \<Rightarrow> string \<Rightarrow> string \<Rightarrow>
     (js_error + DicomWebSeries list option) \<times> request list" where
  "fetchFromServer_try net sent baseUrl uid =
     (let studiesUrl = baseUrl @ ''/tools/find'';
          query = \<lparr>Level = ''Study'', StudyInstanceUID = uid\<rparr>;
          sent1 = sent @ [POST studiesUrl query]
      in case find_answer net sent studiesUrl query of
           Inl f \<Rightarrow> (Inl (FetchError f), sent1)
         | Inr findResponse \<Rightarrow>
             if \<not> ok findResponse then (Inr None, sent1)
             else (case body findResponse of
                     Unreadable \<Rightarrow> (Inl JsonError, sent1)
                   | JsonNull \<Rightarrow> (Inr (Some []), sent1)
                   | Json studyIds \<Rightarrow>
                       if length studyIds = 0 then (Inr (Some []), sent1)
                       else
                         (let seriesUrl = baseUrl @ ''/studies/'' @ studyIds ! 0 @ ''/series'';
                              sent2 = sent1 @ [GET seriesUrl]
                          in case series_answer net sent1 seriesUrl of
                               Inl f \<Rightarrow> (Inl (FetchError f), sent2)
                             | Inr seriesResponse \<Rightarrow>
                                 if \<not> ok seriesResponse then (Inr None, sent2)
                                 else (case body seriesResponse of
                                         Unreadable \<Rightarrow> (Inl JsonError, sent2)
                                       | JsonNull \<Rightarrow> (Inl TypeError, sent2)
                                       | Json seriesObjects \<Rightarrow>
                                           (case map_throwing toDicomWeb seriesObjects of
                                              Inl e \<Rightarrow> (Inl e, sent2)
                                            | Inr seriesData \<Rightarrow>
                                                (Inr (Some seriesData), sent2))))))"

text \<open>The \<open>catch\<close> block logs and returns \<open>null\<close>, whatever was thrown.\<close>

definition fetchFromServer ::
  "network \<Rightarrow> request list \<Rightarrow> string \<Rightarrow> string \<Rightarrow> DicomWebSeries list option \<times> request list" where
  "fetchFromServer net sent baseUrl uid =
     (case fetchFromServer_try net sent baseUrl uid of
        (Inl error, sent') \<Rightarrow> (None, sent')
      | (Inr res, sent') \<Rightarrow> (res, sent'))"

subsection \<open>fetchStudySeries\<close>

text \<open>
  \<open>primaryUrl = process.env.ORTHANC_URL || 'http://localhost:8042'\<close>: the environment
  variable when it is set and not empty.
\<close>

definition primaryUrl :: "string option \<Rightarrow> string" where
  "primaryUrl ORTHANC_URL =
     (case ORTHANC_URL of
        None \<Rightarrow> ''http://localhost:8042''
      | Some u \<Rightarrow> if u = [] then ''http://localhost:8042'' else u)"

definition fallbackUrl :: string where
  "fallbackUrl = ''http://localhost:8042''"

definition fetchStudySeries ::
  "string option \<Rightarrow> network \<Rightarrow> request list \<Rightarrow> string \<Rightarrow>
     DicomWebSeries list option \<times> request list" where
  "fetchStudySeries env net sent uid =
     (case fetchFromServer net sent (primaryUrl env) uid of
        (primaryResult, sent1) \<Rightarrow>
          if primaryResult \<noteq> None then (primaryResult, sent1)
          else (case fetchFromServer net sent1 fallbackUrl uid of
                  (fallbackResult, sent2) \<Rightarrow>
                    if fallbackResult \<noteq> None then (fallbackResult, sent2)
                    else (None, sent2)))"

subsection \<open>extractSeriesUids\<close>

text \<open>
  \<open>s['0020000E']?.Value?.[0]\<close>: \<open>undefined\<close> when the tag is absent, when the entry has no
  \<open>Value\<close>, and when the array is empty.
\<close>

definition firstSeriesValue :: "DicomWebSeries \<Rightarrow> jsvalue" where
  "firstSeriesValue s =
     (case s ''0020000E'' of
        None \<Rightarrow> JUndefined
      | Some entry \<Rightarrow>
          (case Value entry of
             None \<Rightarrow> JUndefined
           | Some vs \<Rightarrow> if 0 < length vs then vs ! 0 else JUndefined))"

definition extractSeriesUids :: "DicomWebSeries list \<Rightarrow> string list" where
  "extractSeriesUids seriesList =
     map the
       (filter (\<lambda>uid. uid \<noteq> None)
          (map (\<lambda>s. let seriesUid = firstSeriesValue s
                    in if typeof seriesUid = ''string'' then narrow_string seriesUid else None)
               seriesList))"

text \<open>
  The specification's reading: a group is well formed when the series tag is present and
  its first value is a string; the groups are gone through in order, each one kept or
  skipped.
\<close>

definition wellFormed :: "DicomWebSeries \<Rightarrow> string \<Rightarrow> bool" where
  "wellFormed g u =
     (\<exists>entry rest. g ''0020000E'' = Some entry \<and> Value entry = Some (JString u # rest))"

definition malformed :: "DicomWebSeries \<Rightarrow> bool" where
  "malformed g = (\<forall>u. \<not> wellFormed g u)"

fun extractIdentifiers :: "DicomWebSeries list \<Rightarrow> string list" where
  "extractIdentifiers [] = []"
| "extractIdentifiers (g # gs) =
     (case g ''0020000E'' of
        None \<Rightarrow> extractIdentifiers gs
      | Some entry \<Rightarrow>
          (case Value entry of
             Some (JString u # rest) \<Rightarrow> u # extractIdentifiers gs
           | _ \<Rightarrow> extractIdentifiers gs))"

section \<open>The routes (routes/caseBundle, routes/orthanc)\<close>

text \<open>
  What a handler sends: \<open>res.status(n).json(x)\<close>, with status 200 when \<open>res.json(x)\<close> is
  called alone.
\<close>

datatype payload =
    ErrorJson string
  | CaseBundleJson CaseBundle
  | SeriesJson "DicomWebSeries list"

record http_response =
  status_code :: nat
  payload :: payload

text \<open>
  GET /api/case-bundle/:studyInstanceUid. The handler returns its response, the record
  store after the request, and the requests sent. The assignment
  \<open>caseBundle.imaging.series = seriesUids\<close> writes to the object that the store holds
  under the key \<open>uid\<close>. Nothing in the \<open>try\<close> block throws in this model, so the \<open>catch\<close>
  branch (status 500) does not appear. \<open>seriesData && seriesData.length > 0\<close> is false
  for \<open>null\<close> and reads the length otherwise; the response sent when it is false is the
  same in both cases.
\<close>

definition caseBundleRoute ::
  "string option \<Rightarrow> network \<Rightarrow> store \<Rightarrow> request list \<Rightarrow> string \<Rightarrow>
     http_response \<times> store \<times> request list" where
  "caseBundleRoute env net db sent uid =
     (if \<not> isValidStudyInstanceUID uid then
        (\<lparr>status_code = 400, payload = ErrorJson ''Invalid StudyInstanceUID format''\<rparr>, db, sent)
      else
        (case findCaseByStudyUid db uid of
           None \<Rightarrow>
             (\<lparr>status_code = 404, payload = ErrorJson ''Case not found for study UID''\<rparr>, db, sent)
         | Some caseBundle \<Rightarrow>
             (case fetchStudySeries env net sent uid of
                (seriesData, sent') \<Rightarrow>
                  (case seriesData of
                     None \<Rightarrow>
                       (\<lparr>status_code = 200, payload = CaseBundleJson caseBundle\<rparr>, db, sent')
                   | Some found \<Rightarrow>
                       if length found > 0 then
                         (let seriesUids = extractSeriesUids found;
                              caseBundle' =
                                caseBundle\<lparr>imaging := (imaging caseBundle)\<lparr>series := seriesUids\<rparr>\<rparr>
                          in (\<lparr>status_code = 200, payload = CaseBundleJson caseBundle'\<rparr>,
                              db(uid \<mapsto> caseBundle'), sent'))
                       else
                         (\<lparr>status_code = 200, payload = CaseBundleJson caseBundle\<rparr>, db, sent')))))"

text \<open>
  GET /api/orthanc/series/:studyInstanceUid. \<open>!seriesData\<close> holds for \<open>null\<close> only: an
  array, also an empty one, is truthy.
\<close>

definition orthancSeriesRoute ::
  "string option \<Rightarrow> network \<Rightarrow> request list \<Rightarrow> string \<Rightarrow> http_response \<times> request list" where
  "orthancSeriesRoute env net sent uid =
     (if \<not> isValidStudyInstanceUID uid then
        (\<lparr>status_code = 400, payload = ErrorJson ''Invalid StudyInstanceUID format''\<rparr>, sent)
      else
        (case fetchStudySeries env net sent uid of
           (seriesData, sent') \<Rightarrow>
             (case seriesData of
                None \<Rightarrow>
                  (\<lparr>status_code = 200, payload = ErrorJson ''Unable to fetch from Orthanc''\<rparr>, sent')
              | Some found \<Rightarrow> (\<lparr>status_code = 200, payload = SeriesJson found\<rparr>, sent'))))"

section \<open>Vocabulary of the properties\<close>

text \<open>
  A request to a server has failed when \<open>fetch\<close> rejected (connection error or timeout)
  or the response has a non-success status.
\<close>

definition failed :: "fault + 'a response \<Rightarrow> bool" where
  "failed answer = (case answer of Inl f \<Rightarrow> True | Inr r \<Rightarrow> \<not> ok r)"

definition url_of :: "request \<Rightarrow> string" where
  "url_of q = (case q of POST u b \<Rightarrow> u | GET u \<Rightarrow> u)"

text \<open>
  Networks and values for running the code: a network that is down, one that times out on
  the series request, one that knows no study, one that serves two series of the record
  \<open>abc\<close>, and one where only the fallback address answers.
\<close>

definition net_down :: network where
  "net_down =
     \<lparr>find_answer = (\<lambda>sent u q. Inl ConnectionError),
      series_answer = (\<lambda>sent u. Inl TimeoutError)\<rparr>"

definition net_series_timeout :: network where
  "net_series_timeout =
     \<lparr>find_answer = (\<lambda>sent u q. Inr \<lparr>status = 200, body = Json [''abc'', ''def'']\<rparr>),
      series_answer = (\<lambda>sent u. Inl TimeoutError)\<rparr>"

definition net_not_found :: network where
  "net_not_found =
     \<lparr>find_answer = (\<lambda>sent u q. Inr \<lparr>status = 200, body = Json []\<rparr>),
      series_answer = (\<lambda>sent u. Inl ConnectionError)\<rparr>"

definition descriptor :: "string \<Rightarrow> series_descriptor" where
  "descriptor u = \<lparr>MainDicomTags = Some \<lparr>SeriesInstanceUID = JString u\<rparr>\<rparr>"

definition net_two_series :: network where
  "net_two_series =
     \<lparr>find_answer = (\<lambda>sent u q. Inr \<lparr>status = 200, body = Json [''abc'', ''def'']\<rparr>),
      series_answer =
        (\<lambda>sent u. if u = ''http://localhost:8042/studies/abc/series''
                   then Inr \<lparr>status = 200, body = Json [descriptor ''1.2.3'', descriptor ''1.2.4'']\<rparr>
                   else Inr \<lparr>status = 404, body = Unreadable\<rparr>)\<rparr>"

definition net_fallback_only :: network where
  "net_fallback_only =
     \<lparr>find_answer =
        (\<lambda>sent u q. if u = ''http://localhost:8042/tools/find''
                     then Inr \<lparr>status = 200, body = Json [''abc'']\<rparr>
                     else Inl ConnectionError),
      series_answer = (\<lambda>sent u. Inr \<lparr>status = 200, body = Json [descriptor ''1.2.3'']\<rparr>)\<rparr>"

definition group :: "string \<Rightarrow> DicomWebSeries" where
  "group u = Map.empty(''0020000E'' \<mapsto> \<lparr>Value = Some [JString u], vr = Some ''UI''\<rparr>)"

section \<open>Patterns and their languages\<close>

lemma nullable_lang: "nullable r \<longleftrightarrow> [] \<in> lang r"
  by (induction r) (auto simp: conc_def intro: star.intros)

lemma star_cons:
  "c # w \<in> star A \<longleftrightarrow> (\<exists>u v. w = u @ v \<and> c # u \<in> A \<and> v \<in> star A)"
proof
  assume "c # w \<in> star A"
  then show "\<exists>u v. w = u @ v \<and> c # u \<in> A \<and> v \<in> star A"
  proof (induction "c # w" rule: star.induct)
    case (star_app u v)
    then show ?case by (cases u) auto
  qed
next
  assume "\<exists>u v. w = u @ v \<and> c # u \<in> A \<and> v \<in> star A"
  then obtain u v where "w = u @ v" "c # u \<in> A" "v \<in> star A" by blast
  then show "c # w \<in> star A" using star.star_app[of "c # u" A v] by simp
qed

lemma conc_cons:
  "c # w \<in> conc A B \<longleftrightarrow>
     (\<exists>u v. w = u @ v \<and> c # u \<in> A \<and> v \<in> B) \<or> ([] \<in> A \<and> c # w \<in> B)"
  unfolding conc_def
  by (auto simp: Cons_eq_append_conv)

lemma lang_deriv: "w \<in> lang (deriv c r) \<longleftrightarrow> c # w \<in> lang r"
proof (induction r arbitrary: w)
  case (Seq r s)
  then show ?case by (auto simp: conc_cons nullable_lang) (auto simp: conc_def)
next
  case (Star r)
  then show ?case by (auto simp: star_cons) (auto simp: conc_def)
next
  case (Plus r)
  have "c # w \<in> star (lang r) \<Longrightarrow> \<exists>u v. w = u @ v \<and> c # u \<in> lang r \<and> v \<in> star (lang r)"
    by (simp add: star_cons)
  with Plus show ?case by (auto simp: conc_cons) (auto simp: conc_def)
qed auto

lemma regex_test_lang: "regex_test r s \<longleftrightarrow> s \<in> lang r"
  by (induction s arbitrary: r) (auto simp: nullable_lang lang_deriv)

lemma nat_48_57: "(48::nat) \<le> n \<and> n \<le> 57 \<longleftrightarrow> n \<in> {48,49,50,51,52,53,54,55,56,57}"
  by (simp only: insert_iff empty_iff) arith

lemma in_range_digit: "in_range CHR ''0'' CHR ''9'' c \<longleftrightarrow> digit c"
proof
  assume "in_range CHR ''0'' CHR ''9'' c"
  then have "(of_char c :: nat) \<in> {48,49,50,51,52,53,54,55,56,57}"
    using nat_48_57[of "of_char c"] by (simp add: in_range_def)
  moreover have "c \<in> set ''0123456789'' \<longleftrightarrow> (of_char c :: nat) \<in> of_char ` set ''0123456789''"
    by (simp only: inj_image_mem_iff[OF inj_of_char])
  ultimately show "digit c"
    by (simp add: digit_def)
next
  assume "digit c"
  then show "in_range CHR ''0'' CHR ''9'' c"
    by (auto simp: digit_def in_range_def)
qed

lemma star_concat: "s \<in> star A \<longleftrightarrow> (\<exists>gs. (\<forall>g \<in> set gs. g \<in> A) \<and> s = concat gs)"
proof
  assume "s \<in> star A"
  then show "\<exists>gs. (\<forall>g \<in> set gs. g \<in> A) \<and> s = concat gs"
  proof (induction rule: star.induct)
    case star_nil
    show ?case by (rule exI[of _ "[]"]) simp
  next
    case (star_app u v)
    then obtain gs where "\<forall>g \<in> set gs. g \<in> A" "v = concat gs" by blast
    then show ?case using star_app.hyps(1) by (intro exI[of _ "u # gs"]) simp
  qed
next
  assume "\<exists>gs. (\<forall>g \<in> set gs. g \<in> A) \<and> s = concat gs"
  then obtain gs where "\<forall>g \<in> set gs. g \<in> A" "s = concat gs" by blast
  then show "s \<in> star A"
    by (induction gs arbitrary: s) (auto intro: star.intros)
qed

lemma star_digits: "s \<in> star {[c] | c. digit c} \<longleftrightarrow> (\<forall>c \<in> set s. digit c)"
proof
  assume "s \<in> star {[c] | c. digit c}"
  then show "\<forall>c \<in> set s. digit c"
    by (induction rule: star.induct) auto
next
  assume "\<forall>c \<in> set s. digit c"
  then show "s \<in> star {[c] | c. digit c}"
  proof (induction s)
    case Nil
    show ?case by (rule star.star_nil)
  next
    case (Cons a s)
    then have "[a] \<in> {[c] | c. digit c}" and "s \<in> star {[c] | c. digit c}" by auto
    then have "[a] @ s \<in> star {[c] | c. digit c}" by (rule star.star_app)
    then show ?case by simp
  qed
qed

lemma conc_single: "w \<in> conc {[c] | c. P c} B \<longleftrightarrow> (\<exists>c v. w = c # v \<and> P c \<and> v \<in> B)"
proof
  assume "w \<in> conc {[c] | c. P c} B"
  then obtain c v where "w = [c] @ v" "P c" "v \<in> B" unfolding conc_def by blast
  then show "\<exists>c v. w = c # v \<and> P c \<and> v \<in> B" by simp
next
  assume "\<exists>c v. w = c # v \<and> P c \<and> v \<in> B"
  then obtain c v where "w = [c] @ v" "[c] \<in> {[c] | c. P c}" "v \<in> B" by auto
  then show "w \<in> conc {[c] | c. P c} B" unfolding conc_def by blast
qed

lemma lang_digits: "s \<in> lang (Plus (Range CHR ''0'' CHR ''9'')) \<longleftrightarrow> digits1 s"
proof -
  have "s \<in> lang (Plus (Range CHR ''0'' CHR ''9'')) \<longleftrightarrow>
        (\<exists>c v. s = c # v \<and> digit c \<and> (\<forall>x \<in> set v. digit x))"
    by (simp add: in_range_digit conc_single star_digits)
  also have "\<dots> \<longleftrightarrow> digits1 s"
    by (cases s) (auto simp: digits1_def)
  finally show ?thesis .
qed

lemma lang_dot_group:
  "g \<in> lang (Seq (Lit CHR ''.'') (Plus (Range CHR ''0'' CHR ''9''))) \<longleftrightarrow> dot_group g"
proof -
  have "g \<in> lang (Seq (Lit CHR ''.'') (Plus (Range CHR ''0'' CHR ''9''))) \<longleftrightarrow>
        (\<exists>e. g = CHR ''.'' # e \<and> e \<in> lang (Plus (Range CHR ''0'' CHR ''9'')))"
    by (auto simp: conc_def)
  then show ?thesis by (simp only: lang_digits dot_group_def)
qed

lemma lang_dicomUidRegex: "s \<in> lang dicomUidRegex \<longleftrightarrow> uid_grammar s"
proof -
  let ?D = "Plus (Range CHR ''0'' CHR ''9'')"
  let ?G = "Seq (Lit CHR ''.'') ?D"
  have "s \<in> lang dicomUidRegex \<longleftrightarrow>
        (\<exists>d w. s = d @ w \<and> d \<in> lang ?D \<and> w \<in> star (lang ?G))"
    by (auto simp: dicomUidRegex_def conc_def)
  also have "\<dots> \<longleftrightarrow> (\<exists>d gs. s = d @ concat gs \<and> digits1 d \<and> (\<forall>g \<in> set gs. dot_group g))"
    by (simp only: star_concat lang_digits lang_dot_group) blast
  also have "\<dots> \<longleftrightarrow> uid_grammar s"
    by (auto simp: uid_grammar_def)
  finally show ?thesis .
qed

lemma dot_group_chars: "dot_group g \<Longrightarrow> c \<in> set g \<Longrightarrow> digit c \<or> c = CHR ''.''"
  by (auto simp: digits1_def dot_group_def)

lemma digit_or_dot: "uid_grammar s \<Longrightarrow> c \<in> set s \<Longrightarrow> digit c \<or> c = CHR ''.''"
proof -
  assume "uid_grammar s" and c: "c \<in> set s"
  then obtain d gs where *: "digits1 d" "\<forall>g \<in> set gs. dot_group g" "s = d @ concat gs"
    by (auto simp: uid_grammar_def)
  from c *(3) consider "c \<in> set d" | g where "g \<in> set gs" "c \<in> set g" by auto
  then show ?thesis
  proof cases
    case 1
    with *(1) show ?thesis by (simp add: digits1_def)
  next
    case 2
    with *(2) show ?thesis using dot_group_chars[of g c] by blast
  qed
qed

lemma letter_not_digit: "letter c \<Longrightarrow> \<not> digit c \<and> c \<noteq> CHR ''.''"
  by (auto simp: letter_def in_range_def digit_def)

lemma grammar_hd: "uid_grammar s \<Longrightarrow> digit (hd s)"
  by (auto simp: uid_grammar_def digits1_def)

lemma concat_groups_last:
  "\<forall>g \<in> set gs. dot_group g \<Longrightarrow> gs \<noteq> [] \<Longrightarrow> concat gs \<noteq> [] \<and> digit (last (concat gs))"
proof (induction gs)
  case Nil
  then show ?case by simp
next
  case (Cons g gs)
  then obtain e where g: "g = CHR ''.'' # e" "digits1 e" by (auto simp: dot_group_def)
  show ?case
  proof (cases "gs = []")
    case True
    with g show ?thesis by (auto simp: digits1_def)
  next
    case False
    with Cons have "concat gs \<noteq> [] \<and> digit (last (concat gs))" by simp
    then show ?thesis by simp
  qed
qed

lemma grammar_last: "uid_grammar s \<Longrightarrow> digit (last s)"
proof -
  assume "uid_grammar s"
  then obtain d gs where *: "digits1 d" "\<forall>g \<in> set gs. dot_group g" "s = d @ concat gs"
    by (auto simp: uid_grammar_def)
  show ?thesis
  proof (cases "gs = []")
    case True
    with * show ?thesis by (auto simp: digits1_def)
  next
    case False
    with * concat_groups_last[of gs] show ?thesis by simp
  qed
qed

lemma digits_no_dotdot:
  assumes "\<forall>c \<in> set e. digit c" and "e @ w = u @ ''..'' @ v"
  shows "\<exists>u'. w = u' @ ''..'' @ v"
  using assms
proof (induction e arbitrary: u)
  case Nil
  then show ?case by auto
next
  case (Cons a e)
  show ?case
  proof (cases u)
    case Nil
    with Cons.prems show ?thesis by (auto simp: digit_def)
  next
    case (Cons b u2)
    with Cons.prems Cons.IH[of u2] show ?thesis by auto
  qed
qed

lemma groups_no_dotdot:
  assumes "\<forall>g \<in> set gs. dot_group g"
  shows "concat gs \<noteq> u @ ''..'' @ v"
  using assms
proof (induction gs arbitrary: u)
  case Nil
  then show ?case by simp
next
  case (Cons g gs)
  then obtain e where g: "g = CHR ''.'' # e" "digits1 e" by (auto simp: dot_group_def)
  show ?case
  proof
    assume eq: "concat (g # gs) = u @ ''..'' @ v"
    show False
    proof (cases u)
      case Nil
      with eq g show False by (cases e) (auto simp: digits1_def digit_def)
    next
      case (Cons b u2)
      with eq g have "e @ concat gs = u2 @ ''..'' @ v" by simp
      with g(2) obtain u' where "concat gs = u' @ ''..'' @ v"
        using digits_no_dotdot[of e "concat gs" u2 v] by (auto simp: digits1_def)
      with Cons.IH[of u'] Cons.prems show False by simp
    qed
  qed
qed

lemma grammar_no_dotdot: "uid_grammar s \<Longrightarrow> s \<noteq> u @ ''..'' @ v"
proof
  assume "uid_grammar s" and eq: "s = u @ ''..'' @ v"
  then obtain d gs where *: "digits1 d" "\<forall>g \<in> set gs. dot_group g" "s = d @ concat gs"
    by (auto simp: uid_grammar_def)
  from *(1,3) eq obtain u' where "concat gs = u' @ ''..'' @ v"
    using digits_no_dotdot[of d "concat gs" u v] by (auto simp: digits1_def)
  with groups_no_dotdot[OF *(2)] show False by blast
qed

lemma valid_iff:
  "isValidStudyInstanceUID uid \<longleftrightarrow> uid \<noteq> [] \<and> length uid \<le> 64 \<and> uid_grammar uid"
  by (auto simp: isValidStudyInstanceUID_def regex_test_lang lang_dicomUidRegex)

lemma valid_grammar: "isValidStudyInstanceUID uid \<Longrightarrow> uid_grammar uid"
  by (simp add: valid_iff)

section \<open>The archive query client\<close>

lemma fetchFromServer_find_failed:
  "failed (find_answer net sent (baseUrl @ ''/tools/find'') \<lparr>Level = ''Study'', StudyInstanceUID = uid\<rparr>)
   \<Longrightarrow> fetchFromServer net sent baseUrl uid =
         (None, sent @ [POST (baseUrl @ ''/tools/find'') \<lparr>Level = ''Study'', StudyInstanceUID = uid\<rparr>])"
  by (simp add: fetchFromServer_def fetchFromServer_try_def failed_def Let_def split: sum.splits)

lemma fetchFromServer_not_found:
  "find_answer net sent (baseUrl @ ''/tools/find'') \<lparr>Level = ''Study'', StudyInstanceUID = uid\<rparr> = Inr r
   \<Longrightarrow> ok r \<Longrightarrow> body r = Json [] \<Longrightarrow>
   fetchFromServer net sent baseUrl uid =
     (Some [], sent @ [POST (baseUrl @ ''/tools/find'') \<lparr>Level = ''Study'', StudyInstanceUID = uid\<rparr>])"
  by (simp add: fetchFromServer_def fetchFromServer_try_def Let_def)

lemma fetchFromServer_series_failed:
  "find_answer net sent (baseUrl @ ''/tools/find'') \<lparr>Level = ''Study'', StudyInstanceUID = uid\<rparr> = Inr r
   \<Longrightarrow> ok r \<Longrightarrow> body r = Json (rid # rest) \<Longrightarrow>
   failed (series_answer net
             (sent @ [POST (baseUrl @ ''/tools/find'') \<lparr>Level = ''Study'', StudyInstanceUID = uid\<rparr>])
             (baseUrl @ ''/studies/'' @ rid @ ''/series'')) \<Longrightarrow>
   fst (fetchFromServer net sent baseUrl uid) = None"
  by (simp add: fetchFromServer_def fetchFromServer_try_def failed_def Let_def split: sum.splits)

lemma fetchFromServer_requests:
  "find_answer net sent (baseUrl @ ''/tools/find'') \<lparr>Level = ''Study'', StudyInstanceUID = uid\<rparr> = Inr r
   \<Longrightarrow> ok r \<Longrightarrow> body r = Json (rid # rest) \<Longrightarrow>
   snd (fetchFromServer net sent baseUrl uid) =
     sent @ [POST (baseUrl @ ''/tools/find'') \<lparr>Level = ''Study'', StudyInstanceUID = uid\<rparr>,
             GET (baseUrl @ ''/studies/'' @ rid @ ''/series'')]"
  by (simp add: fetchFromServer_def fetchFromServer_try_def Let_def
           split: sum.splits body.splits)

lemma fetchFromServer_trace:
  "\<exists>reqs. snd (fetchFromServer net sent baseUrl uid) = sent @ reqs \<and> reqs \<noteq> [] \<and>
          (\<forall>q \<in> set reqs. \<exists>path. url_of q = baseUrl @ path)"
  by (auto simp: fetchFromServer_def fetchFromServer_try_def Let_def url_of_def
           split: sum.splits body.splits)

section \<open>Extraction\<close>

lemma typeof_string: "typeof v = ''string'' \<longleftrightarrow> (\<exists>u. v = JString u)"
  by (cases v) simp_all

lemma firstSeriesValue_wellFormed: "wellFormed g u \<longleftrightarrow> firstSeriesValue g = JString u"
proof
  assume "wellFormed g u"
  then show "firstSeriesValue g = JString u"
    by (auto simp: wellFormed_def firstSeriesValue_def)
next
  assume *: "firstSeriesValue g = JString u"
  show "wellFormed g u"
  proof (cases "g ''0020000E''")
    case None
    with * show ?thesis by (simp add: firstSeriesValue_def)
  next
    case (Some entry)
    show ?thesis
    proof (cases "Value entry")
      case None
      with * Some show ?thesis by (simp add: firstSeriesValue_def)
    next
      case vs: (Some vs)
      with * Some have "vs \<noteq> []" and "vs ! 0 = JString u"
        by (auto simp: firstSeriesValue_def split: if_splits)
      then obtain rest where "vs = JString u # rest" by (cases vs) auto
      with Some vs show ?thesis by (auto simp: wellFormed_def)
    qed
  qed
qed

lemma extract_Cons:
  "extractSeriesUids (g # gs) =
     (case firstSeriesValue g of JString u \<Rightarrow> u # extractSeriesUids gs | _ \<Rightarrow> extractSeriesUids gs)"
  by (cases "firstSeriesValue g") (simp_all add: extractSeriesUids_def)

lemma extract_Nil: "extractSeriesUids [] = []"
  by (simp add: extractSeriesUids_def)

lemma extract_wellFormed: "wellFormed g u \<Longrightarrow> extractSeriesUids (g # gs) = u # extractSeriesUids gs"
  by (simp add: extract_Cons firstSeriesValue_wellFormed)

lemma extract_malformed: "malformed g \<Longrightarrow> extractSeriesUids (g # gs) = extractSeriesUids gs"
  by (cases "firstSeriesValue g") (auto simp: extract_Cons malformed_def firstSeriesValue_wellFormed)

lemma extract_append: "extractSeriesUids (gs @ hs) = extractSeriesUids gs @ extractSeriesUids hs"
  by (simp add: extractSeriesUids_def)

lemma extractIdentifiers_wellFormed: "wellFormed g u \<Longrightarrow> extractIdentifiers (g # gs) = u # extractIdentifiers gs"
  by (auto simp: wellFormed_def)

lemma extractIdentifiers_malformed: "malformed g \<Longrightarrow> extractIdentifiers (g # gs) = extractIdentifiers gs"
  by (auto simp: malformed_def wellFormed_def split: option.splits list.splits jsvalue.splits)

lemma extract_eq: "extractSeriesUids gs = extractIdentifiers gs"
proof (induction gs)
  case Nil
  show ?case by (simp add: extract_Nil)
next
  case (Cons g gs)
  show ?case
  proof (cases "malformed g")
    case True
    then show ?thesis
      by (simp only: extract_malformed extractIdentifiers_malformed Cons.IH)
  next
    case False
    then obtain u where "wellFormed g u" by (auto simp: malformed_def)
    then show ?thesis
      by (simp only: extract_wellFormed extractIdentifiers_wellFormed Cons.IH)
  qed
qed

lemma extract_all_wellFormed: "list_all2 wellFormed gs us \<Longrightarrow> extractSeriesUids gs = us"
  by (induction gs us rule: list_all2_induct) (simp_all add: extract_Nil extract_wellFormed)

lemma wellFormed_group: "wellFormed (group u) u"
  by (simp add: wellFormed_def group_def)

section \<open>Requests sent by the orchestrator\<close>

lemma fetchStudySeries_sends: "length sent < length (snd (fetchStudySeries env net sent uid))"
proof -
  obtain r1 s1 where p: "fetchFromServer net sent (primaryUrl env) uid = (r1, s1)"
    by (cases "fetchFromServer net sent (primaryUrl env) uid")
  obtain r2 s2 where f: "fetchFromServer net s1 fallbackUrl uid = (r2, s2)"
    by (cases "fetchFromServer net s1 fallbackUrl uid")
  from p fetchFromServer_trace[of net sent "primaryUrl env" uid]
  have 1: "length sent < length s1" by auto
  from f fetchFromServer_trace[of net s1 fallbackUrl uid]
  have 2: "length s1 < length s2" by auto
  from p f 1 2 show ?thesis by (auto simp: fetchStudySeries_def)
qed

section \<open>Validated identifiers and the case-bundle route\<close>

lemma caseBundles_dom:
  "dom caseBundles =
     {''1.3.6.1.4.1.14519.5.2.1.2193.7172.847236098565581057121195872945'',
      ''1.2.826.0.1.3680043.8.1055.1.20111103111148288.98361414.79379639'',
      ''123'',
      ''2.16.840.1.113669.632.20.1211.10000357775''}"
  unfolding caseBundles_def dom_map_of_conv_image_fst by simp

lemma stored_uid_valid: "uid \<in> dom caseBundles \<Longrightarrow> isValidStudyInstanceUID uid"
proof -
  have "isValidStudyInstanceUID ''1.3.6.1.4.1.14519.5.2.1.2193.7172.847236098565581057121195872945''"
    by code_simp
  moreover have "isValidStudyInstanceUID ''1.2.826.0.1.3680043.8.1055.1.20111103111148288.98361414.79379639''"
    by code_simp
  moreover have "isValidStudyInstanceUID ''123''"
    by code_simp
  moreover have "isValidStudyInstanceUID ''2.16.840.1.113669.632.20.1211.10000357775''"
    by code_simp
  moreover assume "uid \<in> dom caseBundles"
  ultimately show ?thesis unfolding caseBundles_dom by blast
qed

lemma route_found:
  assumes "isValidStudyInstanceUID uid" and "db uid = Some b"
    and "fetchStudySeries env net sent uid = (Some (g # gs), sent')"
  shows "caseBundleRoute env net db sent uid =
           (\<lparr>status_code = 200,
             payload = CaseBundleJson (b\<lparr>imaging := (imaging b)\<lparr>series := extractSeriesUids (g # gs)\<rparr>\<rparr>)\<rparr>,
            db(uid \<mapsto> b\<lparr>imaging := (imaging b)\<lparr>series := extractSeriesUids (g # gs)\<rparr>\<rparr>),
            sent')"
  using assms by (simp add: caseBundleRoute_def findCaseByStudyUid_def Let_def)

lemma route_nothing:
  assumes "isValidStudyInstanceUID uid" and "db uid = Some b"
    and "fetchStudySeries env net sent uid = (fetched, sent')"
    and "fetched = None \<or> fetched = Some []"
  shows "caseBundleRoute env net db sent uid =
           (\<lparr>status_code = 200, payload = CaseBundleJson b\<rparr>, db, sent')"
  using assms by (auto simp: caseBundleRoute_def findCaseByStudyUid_def)

section \<open>Runs on the example networks\<close>

lemmas run_defs =
  fetchStudySeries_def fetchFromServer_def fetchFromServer_try_def primaryUrl_def fallbackUrl_def
  ok_def failed_def toDicomWeb_def descriptor_def group_def Let_def

lemma run_down:
  "fetchFromServer net_down sent base uid =
     (None, sent @ [POST (base @ ''/tools/find'') \<lparr>Level = ''Study'', StudyInstanceUID = uid\<rparr>])"
  by (simp add: run_defs net_down_def)

lemma run_not_found:
  "fetchFromServer net_not_found sent base uid =
     (Some [], sent @ [POST (base @ ''/tools/find'') \<lparr>Level = ''Study'', StudyInstanceUID = uid\<rparr>])"
  by (simp add: run_defs net_not_found_def)

lemma run_two_series:
  "fetchStudySeries None net_two_series [] ''123'' =
     (Some [group ''1.2.3'', group ''1.2.4''],
      [POST ''http://localhost:8042/tools/find'' \<lparr>Level = ''Study'', StudyInstanceUID = ''123''\<rparr>,
       GET ''http://localhost:8042/studies/abc/series''])"
  by (simp add: run_defs net_two_series_def)

lemma run_fallback_primary:
  "fetchFromServer net_fallback_only [] (primaryUrl (Some ''http://pacs:8042'')) ''123'' =
     (None, [POST ''http://pacs:8042/tools/find'' \<lparr>Level = ''Study'', StudyInstanceUID = ''123''\<rparr>])"
  by (simp add: run_defs net_fallback_only_def)

lemma run_fallback_secondary:
  "fetchFromServer net_fallback_only
     [POST ''http://pacs:8042/tools/find'' \<lparr>Level = ''Study'', StudyInstanceUID = ''123''\<rparr>]
     fallbackUrl ''123'' =
     (Some [group ''1.2.3''],
      [POST ''http://pacs:8042/tools/find'' \<lparr>Level = ''Study'', StudyInstanceUID = ''123''\<rparr>,
       POST ''http://localhost:8042/tools/find'' \<lparr>Level = ''Study'', StudyInstanceUID = ''123''\<rparr>,
       GET ''http://localhost:8042/studies/abc/series''])"
  by (simp add: run_defs net_fallback_only_def)

lemma caseBundles_123: "caseBundles ''123'' = Some case_P002"
  by (simp add: caseBundles_def)

lemma valid_123: "isValidStudyInstanceUID ''123''"
  by (simp add: isValidStudyInstanceUID_def dicomUidRegex_def in_range_def)

lemma extract_group: "extractSeriesUids (group u # gs) = u # extractSeriesUids gs"
  by (rule extract_wellFormed[OF wellFormed_group])

lemma run_route_two_series:
  "caseBundleRoute None net_two_series caseBundles [] ''123'' =
     (\<lparr>status_code = 200,
       payload = CaseBundleJson (case_P002\<lparr>imaging := (imaging case_P002)\<lparr>series := [''1.2.3'', ''1.2.4'']\<rparr>\<rparr>)\<rparr>,
      caseBundles(''123'' \<mapsto> case_P002\<lparr>imaging := (imaging case_P002)\<lparr>series := [''1.2.3'', ''1.2.4'']\<rparr>\<rparr>),
      [POST ''http://localhost:8042/tools/find'' \<lparr>Level = ''Study'', StudyInstanceUID = ''123''\<rparr>,
       GET ''http://localhost:8042/studies/abc/series''])"
  using route_found[where db = caseBundles, OF valid_123 caseBundles_123 run_two_series]
  by (simp only: extract_group extract_Nil)

lemma overwritten_differs:
  "case_P002\<lparr>imaging := (imaging case_P002)\<lparr>series := [''1.2.3'', ''1.2.4'']\<rparr>\<rparr> \<noteq> case_P002"
proof
  assume "case_P002\<lparr>imaging := (imaging case_P002)\<lparr>series := [''1.2.3'', ''1.2.4'']\<rparr>\<rparr> = case_P002"
  then have "series (imaging (case_P002\<lparr>imaging := (imaging case_P002)\<lparr>series := [''1.2.3'', ''1.2.4'']\<rparr>\<rparr>))
             = series (imaging case_P002)"
    by (rule arg_cong)
  then show False by (simp add: case_P002_def)
qed

section \<open>The claims\<close>

subsection \<open>C1\<close>

text \<open>
  C1. For every study identifier, \<open>fetchStudySeries\<close> first queries the primary server. If
  that query yields a non-failure result (any sequence, also the empty one), it returns
  exactly that sequence, and the requests sent are those of the primary query alone, all
  of them addressed to the primary server. If the primary yields the failure result and
  the secondary a non-failure result, it returns the secondary's sequence. If both yield
  the failure result, it returns \<open>null\<close>, which differs from the empty sequence.
\<close>

theorem fetchStudySeries_fallback:
  "(fetchFromServer net sent (primaryUrl env) uid = (Some found, sent1) \<longrightarrow>
      fetchStudySeries env net sent uid = (Some found, sent1)
      \<and> (\<exists>reqs. sent1 = sent @ reqs \<and> (\<forall>q \<in> set reqs. \<exists>path. url_of q = primaryUrl env @ path)))
   \<and> (fetchFromServer net sent (primaryUrl env) uid = (None, sent1)
        \<and> fetchFromServer net sent1 fallbackUrl uid = (Some found, sent2) \<longrightarrow>
      fetchStudySeries env net sent uid = (Some found, sent2))
   \<and> (fetchFromServer net sent (primaryUrl env) uid = (None, sent1)
        \<and> fetchFromServer net sent1 fallbackUrl uid = (None, sent2) \<longrightarrow>
      fetchStudySeries env net sent uid = (None, sent2))
   \<and> (None :: DicomWebSeries list option) \<noteq> Some []"
proof (intro conjI impI)
  assume *: "fetchFromServer net sent (primaryUrl env) uid = (Some found, sent1)"
  then show "fetchStudySeries env net sent uid = (Some found, sent1)"
    by (simp add: fetchStudySeries_def)
  from * fetchFromServer_trace[of net sent "primaryUrl env" uid]
  show "\<exists>reqs. sent1 = sent @ reqs \<and> (\<forall>q \<in> set reqs. \<exists>path. url_of q = primaryUrl env @ path)"
    by auto
next
  assume "fetchFromServer net sent (primaryUrl env) uid = (None, sent1)
        \<and> fetchFromServer net sent1 fallbackUrl uid = (Some found, sent2)"
  then show "fetchStudySeries env net sent uid = (Some found, sent2)"
    by (simp add: fetchStudySeries_def)
next
  assume "fetchFromServer net sent (primaryUrl env) uid = (None, sent1)
        \<and> fetchFromServer net sent1 fallbackUrl uid = (None, sent2)"
  then show "fetchStudySeries env net sent uid = (None, sent2)"
    by (simp add: fetchStudySeries_def)
next
  show "(None :: DicomWebSeries list option) \<noteq> Some []" by simp
qed

theorem fetchStudySeries_fallback_witness:
  "fetchStudySeries None net_two_series [] ''123'' =
     (Some [group ''1.2.3'', group ''1.2.4''],
      [POST ''http://localhost:8042/tools/find'' \<lparr>Level = ''Study'', StudyInstanceUID = ''123''\<rparr>,
       GET ''http://localhost:8042/studies/abc/series''])
   \<and> fetchStudySeries (Some ''http://pacs:8042'') net_fallback_only [] ''123'' =
     (Some [group ''1.2.3''],
      [POST ''http://pacs:8042/tools/find'' \<lparr>Level = ''Study'', StudyInstanceUID = ''123''\<rparr>,
       POST ''http://localhost:8042/tools/find'' \<lparr>Level = ''Study'', StudyInstanceUID = ''123''\<rparr>,
       GET ''http://localhost:8042/studies/abc/series''])
   \<and> fetchStudySeries None net_down [] ''123'' =
     (None,
      [POST ''http://localhost:8042/tools/find'' \<lparr>Level = ''Study'', StudyInstanceUID = ''123''\<rparr>,
       POST ''http://localhost:8042/tools/find'' \<lparr>Level = ''Study'', StudyInstanceUID = ''123''\<rparr>])"
proof -
  have p1: "fetchFromServer net_two_series [] (primaryUrl None) ''123'' =
     (Some [group ''1.2.3'', group ''1.2.4''],
      [POST ''http://localhost:8042/tools/find'' \<lparr>Level = ''Study'', StudyInstanceUID = ''123''\<rparr>,
       GET ''http://localhost:8042/studies/abc/series''])"
    by (simp add: run_defs net_two_series_def)
  have p2: "fetchFromServer net_fallback_only [] (primaryUrl (Some ''http://pacs:8042'')) ''123'' =
       (None, [POST ''http://pacs:8042/tools/find'' \<lparr>Level = ''Study'', StudyInstanceUID = ''123''\<rparr>])
     \<and> fetchFromServer net_fallback_only
       [POST ''http://pacs:8042/tools/find'' \<lparr>Level = ''Study'', StudyInstanceUID = ''123''\<rparr>]
       fallbackUrl ''123'' =
       (Some [group ''1.2.3''],
        [POST ''http://pacs:8042/tools/find'' \<lparr>Level = ''Study'', StudyInstanceUID = ''123''\<rparr>,
         POST ''http://localhost:8042/tools/find'' \<lparr>Level = ''Study'', StudyInstanceUID = ''123''\<rparr>,
         GET ''http://localhost:8042/studies/abc/series''])"
    using run_fallback_primary run_fallback_secondary by (rule conjI)
  have p3: "fetchFromServer net_down [] (primaryUrl None) ''123'' =
       (None, [POST ''http://localhost:8042/tools/find'' \<lparr>Level = ''Study'', StudyInstanceUID = ''123''\<rparr>])
     \<and> fetchFromServer net_down
       [POST ''http://localhost:8042/tools/find'' \<lparr>Level = ''Study'', StudyInstanceUID = ''123''\<rparr>]
       fallbackUrl ''123'' =
       (None,
        [POST ''http://localhost:8042/tools/find'' \<lparr>Level = ''Study'', StudyInstanceUID = ''123''\<rparr>,
         POST ''http://localhost:8042/tools/find'' \<lparr>Level = ''Study'', StudyInstanceUID = ''123''\<rparr>])"
    by (simp add: run_down primaryUrl_def fallbackUrl_def)
  note c1 = fetchStudySeries_fallback[THEN conjunct1, THEN mp, OF p1, THEN conjunct1]
  note c2 = fetchStudySeries_fallback[THEN conjunct2, THEN conjunct1, THEN mp, OF p2]
  note c3 = fetchStudySeries_fallback[THEN conjunct2, THEN conjunct2, THEN conjunct1, THEN mp, OF p3]
  from c1 c2 c3 show ?thesis by (intro conjI)
qed

subsection \<open>C2\<close>

text \<open>
  C2. Serving one request is claimed to leave the contents of the record store unchanged
  for all later requests. The run below serves GET /api/case-bundle/123 while the archive
  returns two series: the store afterwards differs from \<open>caseBundles\<close>, its record for
  \<open>123\<close> holds the fetched list in place of \<open>SERIES_UID_1\<close>, \<open>SERIES_UID_2\<close>, and a later
  request for \<open>123\<close> with the archive down is answered with the fetched list, where the
  same request on the initial store is answered with the record as the module defines it.
\<close>

theorem caseBundleRoute_changes_store:
  "fst (snd (caseBundleRoute None net_two_series caseBundles [] ''123'')) \<noteq> caseBundles
   \<and> caseBundles ''123'' = Some case_P002
   \<and> series (imaging case_P002) = [''SERIES_UID_1'', ''SERIES_UID_2'']
   \<and> fst (snd (caseBundleRoute None net_two_series caseBundles [] ''123'')) ''123'' =
       Some (case_P002\<lparr>imaging := (imaging case_P002)\<lparr>series := [''1.2.3'', ''1.2.4'']\<rparr>\<rparr>)
   \<and> fst (caseBundleRoute None net_down caseBundles [] ''123'') =
       \<lparr>status_code = 200, payload = CaseBundleJson case_P002\<rparr>
   \<and> fst (caseBundleRoute None net_down
            (fst (snd (caseBundleRoute None net_two_series caseBundles [] ''123''))) [] ''123'') =
       \<lparr>status_code = 200,
        payload = CaseBundleJson (case_P002\<lparr>imaging := (imaging case_P002)\<lparr>series := [''1.2.3'', ''1.2.4'']\<rparr>\<rparr>)\<rparr>"
proof -
  let ?b = "case_P002\<lparr>imaging := (imaging case_P002)\<lparr>series := [''1.2.3'', ''1.2.4'']\<rparr>\<rparr>"
  have db1: "fst (snd (caseBundleRoute None net_two_series caseBundles [] ''123'')) =
               caseBundles(''123'' \<mapsto> ?b)"
    by (simp add: run_route_two_series)
  have s: "series (imaging case_P002) = [''SERIES_UID_1'', ''SERIES_UID_2'']"
    by (simp add: case_P002_def)
  have c1: "fst (snd (caseBundleRoute None net_two_series caseBundles [] ''123'')) \<noteq> caseBundles"
  proof
    assume "fst (snd (caseBundleRoute None net_two_series caseBundles [] ''123'')) = caseBundles"
    with db1 have "(caseBundles(''123'' \<mapsto> ?b)) ''123'' = caseBundles ''123''" by simp
    with overwritten_differs show False by (simp add: caseBundles_123)
  qed
  have down: "fetchStudySeries None net_down [] ''123'' =
      (None, snd (fetchStudySeries None net_down [] ''123''))"
    by (simp add: fetchStudySeries_def run_down)
  have c5: "fst (caseBundleRoute None net_down caseBundles [] ''123'') =
       \<lparr>status_code = 200, payload = CaseBundleJson case_P002\<rparr>"
    by (simp add: route_nothing[where db = caseBundles, OF valid_123 caseBundles_123 down])
  have "(caseBundles(''123'' \<mapsto> ?b)) ''123'' = Some ?b" by simp
  from route_nothing[where db = "caseBundles(''123'' \<mapsto> ?b)", OF valid_123 this down]
  have c6: "fst (caseBundleRoute None net_down
            (fst (snd (caseBundleRoute None net_two_series caseBundles [] ''123''))) [] ''123'') =
       \<lparr>status_code = 200, payload = CaseBundleJson ?b\<rparr>"
    by (simp add: db1)
  have c4: "fst (snd (caseBundleRoute None net_two_series caseBundles [] ''123'')) ''123'' = Some ?b"
    by (simp add: db1)
  from c1 caseBundles_123 s c4 c5 c6 show ?thesis by (intro conjI)
qed

subsection \<open>C3\<close>

text \<open>
  C3. For every server address and study identifier: if the find request fails (connection
  error, timeout, or non-success status), \<open>fetchFromServer\<close> returns \<open>null\<close>; if the find
  request succeeds with at least one record id and the series request fails in one of
  these ways, it returns \<open>null\<close>; and whatever is thrown inside the \<open>try\<close> block is turned
  into \<open>null\<close>, so no fault leaves the client.
\<close>

theorem fetchFromServer_unavailable:
  "(failed (find_answer net sent (baseUrl @ ''/tools/find'') \<lparr>Level = ''Study'', StudyInstanceUID = uid\<rparr>)
      \<longrightarrow> fst (fetchFromServer net sent baseUrl uid) = None)
   \<and> (find_answer net sent (baseUrl @ ''/tools/find'') \<lparr>Level = ''Study'', StudyInstanceUID = uid\<rparr> = Inr r
        \<and> ok r \<and> body r = Json (rid # rest)
        \<and> failed (series_answer net
                    (sent @ [POST (baseUrl @ ''/tools/find'') \<lparr>Level = ''Study'', StudyInstanceUID = uid\<rparr>])
                    (baseUrl @ ''/studies/'' @ rid @ ''/series''))
      \<longrightarrow> fst (fetchFromServer net sent baseUrl uid) = None)
   \<and> (\<forall>e. fst (fetchFromServer_try net sent baseUrl uid) = Inl e
      \<longrightarrow> fst (fetchFromServer net sent baseUrl uid) = None)"
proof (intro conjI impI allI)
  assume "failed (find_answer net sent (baseUrl @ ''/tools/find'') \<lparr>Level = ''Study'', StudyInstanceUID = uid\<rparr>)"
  then show "fst (fetchFromServer net sent baseUrl uid) = None"
    by (simp add: fetchFromServer_find_failed)
next
  assume "find_answer net sent (baseUrl @ ''/tools/find'') \<lparr>Level = ''Study'', StudyInstanceUID = uid\<rparr> = Inr r
        \<and> ok r \<and> body r = Json (rid # rest)
        \<and> failed (series_answer net
                    (sent @ [POST (baseUrl @ ''/tools/find'') \<lparr>Level = ''Study'', StudyInstanceUID = uid\<rparr>])
                    (baseUrl @ ''/studies/'' @ rid @ ''/series''))"
  then show "fst (fetchFromServer net sent baseUrl uid) = None"
    using fetchFromServer_series_failed[of net sent baseUrl uid r rid rest] by blast
next
  fix e
  assume "fst (fetchFromServer_try net sent baseUrl uid) = Inl e"
  then show "fst (fetchFromServer net sent baseUrl uid) = None"
    by (cases "fetchFromServer_try net sent baseUrl uid") (simp add: fetchFromServer_def)
qed

theorem fetchFromServer_unavailable_witness:
  "failed (find_answer net_down [] (''http://localhost:8042'' @ ''/tools/find'')
             \<lparr>Level = ''Study'', StudyInstanceUID = ''123''\<rparr>)
   \<and> fst (fetchFromServer net_down [] ''http://localhost:8042'' ''123'') = None
   \<and> failed (series_answer net_series_timeout
               ([] @ [POST (''http://localhost:8042'' @ ''/tools/find'')
                        \<lparr>Level = ''Study'', StudyInstanceUID = ''123''\<rparr>])
               (''http://localhost:8042'' @ ''/studies/'' @ ''abc'' @ ''/series''))
   \<and> fst (fetchFromServer net_series_timeout [] ''http://localhost:8042'' ''123'') = None
   \<and> fst (fetchFromServer_try net_series_timeout [] ''http://localhost:8042'' ''123'')
       = Inl (FetchError TimeoutError)"
proof -
  have h1: "failed (find_answer net_down [] (''http://localhost:8042'' @ ''/tools/find'')
             \<lparr>Level = ''Study'', StudyInstanceUID = ''123''\<rparr>)"
    by (simp add: failed_def net_down_def)
  have h2: "find_answer net_series_timeout [] (''http://localhost:8042'' @ ''/tools/find'')
              \<lparr>Level = ''Study'', StudyInstanceUID = ''123''\<rparr>
              = Inr \<lparr>status = 200, body = Json (''abc'' # [''def''])\<rparr>
        \<and> ok \<lparr>status = 200, body = Json (''abc'' # [''def''])\<rparr>
        \<and> body \<lparr>status = 200, body = Json (''abc'' # [''def''])\<rparr> = Json (''abc'' # [''def''])
        \<and> failed (series_answer net_series_timeout
               ([] @ [POST (''http://localhost:8042'' @ ''/tools/find'')
                        \<lparr>Level = ''Study'', StudyInstanceUID = ''123''\<rparr>])
               (''http://localhost:8042'' @ ''/studies/'' @ ''abc'' @ ''/series''))"
    by (simp add: failed_def ok_def net_series_timeout_def)
  have h3: "fst (fetchFromServer_try net_series_timeout [] ''http://localhost:8042'' ''123'')
       = Inl (FetchError TimeoutError)"
    by (simp add: run_defs net_series_timeout_def)
  note c1 = fetchFromServer_unavailable[THEN conjunct1, THEN mp, OF h1]
  note c2 = fetchFromServer_unavailable[THEN conjunct2, THEN conjunct1, THEN mp, OF h2]
  note c3 = fetchFromServer_unavailable[THEN conjunct2, THEN conjunct2, THEN spec, THEN mp, OF h3]
  from h1 c1 h2 c2 c3 h3 show ?thesis by (intro conjI) simp_all
qed

subsection \<open>C4\<close>

text \<open>
  C4. For every server address and study identifier, if the find request succeeds and
  returns zero record ids, \<open>fetchFromServer\<close> returns the empty sequence. That result is
  not \<open>null\<close>, and it differs from the result of every call whose find request failed.
\<close>

theorem fetchFromServer_not_found_distinct:
  assumes "find_answer net sent (baseUrl @ ''/tools/find'') \<lparr>Level = ''Study'', StudyInstanceUID = uid\<rparr> = Inr r"
    and "ok r" and "body r = Json []"
  shows "fst (fetchFromServer net sent baseUrl uid) = Some []
         \<and> fst (fetchFromServer net sent baseUrl uid) \<noteq> None
         \<and> (failed (find_answer net' sent' (baseUrl' @ ''/tools/find'')
                      \<lparr>Level = ''Study'', StudyInstanceUID = uid'\<rparr>)
            \<longrightarrow> fst (fetchFromServer net' sent' baseUrl' uid') \<noteq> fst (fetchFromServer net sent baseUrl uid))"
proof -
  have 1: "fst (fetchFromServer net sent baseUrl uid) = Some []"
    using fetchFromServer_not_found[OF assms] by simp
  have 2: "fst (fetchFromServer net' sent' baseUrl' uid') = None"
    if "failed (find_answer net' sent' (baseUrl' @ ''/tools/find'')
                  \<lparr>Level = ''Study'', StudyInstanceUID = uid'\<rparr>)"
    using fetchFromServer_find_failed[OF that] by simp
  from 1 2 show ?thesis by simp
qed

theorem fetchFromServer_not_found_distinct_witness:
  "fst (fetchFromServer net_not_found [] ''http://localhost:8042'' ''123'') = Some []
   \<and> failed (find_answer net_down [] (''http://localhost:8042'' @ ''/tools/find'')
               \<lparr>Level = ''Study'', StudyInstanceUID = ''123''\<rparr>)
   \<and> fst (fetchFromServer net_down [] ''http://localhost:8042'' ''123'')
       \<noteq> fst (fetchFromServer net_not_found [] ''http://localhost:8042'' ''123'')"
proof -
  have h1: "find_answer net_not_found [] (''http://localhost:8042'' @ ''/tools/find'')
              \<lparr>Level = ''Study'', StudyInstanceUID = ''123''\<rparr> = Inr \<lparr>status = 200, body = Json []\<rparr>"
    by (simp add: net_not_found_def)
  have h2: "ok \<lparr>status = 200, body = Json ([] :: string list)\<rparr>" by (simp add: ok_def)
  have h3: "body \<lparr>status = 200, body = Json ([] :: string list)\<rparr> = Json []" by simp
  have h4: "failed (find_answer net_down [] (''http://localhost:8042'' @ ''/tools/find'')
               \<lparr>Level = ''Study'', StudyInstanceUID = ''123''\<rparr>)"
    by (simp add: failed_def net_down_def)
  note t = fetchFromServer_not_found_distinct[OF h1 h2 h3,
      where net' = net_down and sent' = "[]" and baseUrl' = "''http://localhost:8042''"
        and uid' = "''123''"]
  from t h4 show ?thesis by blast
qed

subsection \<open>C5\<close>

text \<open>
  C5. For every sequence of groups, \<open>extractSeriesUids\<close> returns, in input order, the first
  value of the tag \<open>0020000E\<close> of each group in which the tag is present and its first value
  is a string. It agrees with the group-by-group reading of the specification, treats a
  concatenation piecewise, maps a well-formed group to its identifier and a malformed one
  to nothing, so that a malformed group anywhere in the input changes neither the number
  nor the order of the other entries; on well-formed groups only, the result is their
  identifiers. The function is total: no input raises an error.
\<close>

theorem extractSeriesUids_spec:
  "extractSeriesUids gs = extractIdentifiers gs
   \<and> extractSeriesUids (gs @ hs) = extractSeriesUids gs @ extractSeriesUids hs
   \<and> (wellFormed g u \<longrightarrow> extractSeriesUids [g] = [u])
   \<and> (malformed g \<longrightarrow> extractSeriesUids [g] = [])
   \<and> (malformed g \<longrightarrow> extractSeriesUids (gs @ g # hs) = extractSeriesUids (gs @ hs))
   \<and> (list_all2 wellFormed gs us \<longrightarrow> extractSeriesUids gs = us)"
proof (intro conjI impI)
  show "extractSeriesUids gs = extractIdentifiers gs" by (rule extract_eq)
  show "extractSeriesUids (gs @ hs) = extractSeriesUids gs @ extractSeriesUids hs"
    by (rule extract_append)
  show "extractSeriesUids [g] = [u]" if "wellFormed g u"
    using that by (simp add: extract_wellFormed extract_Nil)
  show "extractSeriesUids [g] = []" if "malformed g"
    using that by (simp add: extract_malformed extract_Nil)
  show "extractSeriesUids (gs @ g # hs) = extractSeriesUids (gs @ hs)" if "malformed g"
    using that by (simp add: extract_append extract_malformed)
  show "extractSeriesUids gs = us" if "list_all2 wellFormed gs us"
    using that by (rule extract_all_wellFormed)
qed

theorem extractSeriesUids_spec_witness:
  "wellFormed (group ''1.2.3'') ''1.2.3''
   \<and> malformed Map.empty
   \<and> list_all2 wellFormed [group ''1.2.3'', group ''1.2.4'', group ''1.2.5'']
        [''1.2.3'', ''1.2.4'', ''1.2.5'']
   \<and> extractSeriesUids [group ''1.2.3''] = [''1.2.3'']
   \<and> extractSeriesUids [Map.empty] = []
   \<and> extractSeriesUids ([group ''1.2.3'', group ''1.2.4'', group ''1.2.5''] @ Map.empty # [group ''1.2.6''])
       = extractSeriesUids ([group ''1.2.3'', group ''1.2.4'', group ''1.2.5''] @ [group ''1.2.6''])
   \<and> extractSeriesUids [group ''1.2.3'', group ''1.2.4'', group ''1.2.5'']
       = [''1.2.3'', ''1.2.4'', ''1.2.5'']"
proof -
  have h1: "wellFormed (group ''1.2.3'') ''1.2.3''" by (rule wellFormed_group)
  have h2: "malformed Map.empty" by (simp add: malformed_def wellFormed_def)
  have h3: "list_all2 wellFormed [group ''1.2.3'', group ''1.2.4'', group ''1.2.5'']
              [''1.2.3'', ''1.2.4'', ''1.2.5'']"
    by (simp add: wellFormed_group)
  note a = extractSeriesUids_spec[where g = "group ''1.2.3''" and u = "''1.2.3''"]
  note b = extractSeriesUids_spec[where g = Map.empty
      and gs = "[group ''1.2.3'', group ''1.2.4'', group ''1.2.5'']"
      and hs = "[group ''1.2.6'']" and us = "[''1.2.3'', ''1.2.4'', ''1.2.5'']"]
  from h1 a have c1: "extractSeriesUids [group ''1.2.3''] = [''1.2.3'']" by blast
  from h2 b have c2: "extractSeriesUids [Map.empty] = []" by blast
  from h2 b have c3:
    "extractSeriesUids ([group ''1.2.3'', group ''1.2.4'', group ''1.2.5''] @ Map.empty # [group ''1.2.6''])
       = extractSeriesUids ([group ''1.2.3'', group ''1.2.4'', group ''1.2.5''] @ [group ''1.2.6''])"
    by blast
  from h3 b have c4: "extractSeriesUids [group ''1.2.3'', group ''1.2.4'', group ''1.2.5'']
       = [''1.2.3'', ''1.2.4'', ''1.2.5'']" by blast
  from h1 h2 h3 c1 c2 c3 c4 show ?thesis by (intro conjI)
qed

subsection \<open>C6\<close>

text \<open>
  C6. For every string, \<open>isValidStudyInstanceUID\<close> returns true if and only if the string is
  non-empty, at most 64 characters long, and consists of one or more digits followed by
  zero or more groups of a single dot followed by one or more digits. In particular it
  returns false for the empty string, for strings of more than 64 characters, and for
  strings that contain a letter, start with a dot, end with a dot, or contain two
  consecutive dots.
\<close>

theorem isValidStudyInstanceUID_grammar:
  "(isValidStudyInstanceUID uid \<longleftrightarrow> uid \<noteq> [] \<and> length uid \<le> 64 \<and> uid_grammar uid)
   \<and> \<not> isValidStudyInstanceUID []
   \<and> (length uid > 64 \<longrightarrow> \<not> isValidStudyInstanceUID uid)
   \<and> ((\<exists>c \<in> set uid. letter c) \<longrightarrow> \<not> isValidStudyInstanceUID uid)
   \<and> ((\<exists>v. uid = CHR ''.'' # v) \<longrightarrow> \<not> isValidStudyInstanceUID uid)
   \<and> ((\<exists>u. uid = u @ [CHR ''.'']) \<longrightarrow> \<not> isValidStudyInstanceUID uid)
   \<and> ((\<exists>u v. uid = u @ ''..'' @ v) \<longrightarrow> \<not> isValidStudyInstanceUID uid)"
proof (intro conjI impI)
  show "isValidStudyInstanceUID uid \<longleftrightarrow> uid \<noteq> [] \<and> length uid \<le> 64 \<and> uid_grammar uid"
    by (rule valid_iff)
  show "\<not> isValidStudyInstanceUID []"
    by (simp add: isValidStudyInstanceUID_def)
  show "\<not> isValidStudyInstanceUID uid" if "length uid > 64"
    using that by (simp add: isValidStudyInstanceUID_def)
  show "\<not> isValidStudyInstanceUID uid" if "\<exists>c \<in> set uid. letter c"
    using that digit_or_dot[of uid] letter_not_digit valid_grammar[of uid] by blast
  show "\<not> isValidStudyInstanceUID uid" if "\<exists>v. uid = CHR ''.'' # v"
    using that grammar_hd[of uid] valid_grammar[of uid] by (auto simp: digit_def)
  show "\<not> isValidStudyInstanceUID uid" if "\<exists>u. uid = u @ [CHR ''.'']"
    using that grammar_last[of uid] valid_grammar[of uid] by (auto simp: digit_def)
  show "\<not> isValidStudyInstanceUID uid" if "\<exists>u v. uid = u @ ''..'' @ v"
    using that grammar_no_dotdot[of uid] valid_grammar[of uid] by blast
qed

theorem isValidStudyInstanceUID_grammar_witness:
  "isValidStudyInstanceUID ''1.2.840'' \<and> uid_grammar ''1.2.840''
   \<and> length (replicate 65 CHR ''1'') > 64 \<and> \<not> isValidStudyInstanceUID (replicate 65 CHR ''1'')
   \<and> (\<exists>c \<in> set ''1.2a''. letter c) \<and> \<not> isValidStudyInstanceUID ''1.2a''
   \<and> \<not> isValidStudyInstanceUID ''.1.2''
   \<and> \<not> isValidStudyInstanceUID ''1.2.''
   \<and> \<not> isValidStudyInstanceUID ''1..2''"
proof -
  have h1: "isValidStudyInstanceUID ''1.2.840''"
    by (simp add: isValidStudyInstanceUID_def dicomUidRegex_def in_range_def)
  have h2: "length (replicate 65 CHR ''1'') > 64" by simp
  have h3: "\<exists>c \<in> set ''1.2a''. letter c" by (simp add: letter_def in_range_def)
  have h4: "\<exists>v. ''.1.2'' = CHR ''.'' # v" by simp
  have h5: "\<exists>u. ''1.2.'' = u @ [CHR ''.'']" by (rule exI[of _ "''1.2''"]) simp
  have h6: "\<exists>u v. ''1..2'' = u @ ''..'' @ v"
    by (rule exI[of _ "''1''"], rule exI[of _ "''2''"]) simp
  have c1: "uid_grammar ''1.2.840''"
    using h1 isValidStudyInstanceUID_grammar[of "''1.2.840''"] by (elim conjE) (simp only:)
  have c2: "\<not> isValidStudyInstanceUID (replicate 65 CHR ''1'')"
    using h2 isValidStudyInstanceUID_grammar[of "replicate 65 CHR ''1''"]
    by (elim conjE) (rule mp)
  have c3: "\<not> isValidStudyInstanceUID ''1.2a''"
    using h3 isValidStudyInstanceUID_grammar[of "''1.2a''"] by (elim conjE) (rule mp)
  have c4: "\<not> isValidStudyInstanceUID ''.1.2''"
    using h4 isValidStudyInstanceUID_grammar[of "''.1.2''"] by (elim conjE) (rule mp)
  have c5: "\<not> isValidStudyInstanceUID ''1.2.''"
    using h5 isValidStudyInstanceUID_grammar[of "''1.2.''"] by (elim conjE) (rule mp)
  have c6: "\<not> isValidStudyInstanceUID ''1..2''"
    using h6 isValidStudyInstanceUID_grammar[of "''1..2''"] by (elim conjE) (rule mp)
  from h1 c1 h2 c2 h3 c3 c4 c5 c6 show ?thesis by (intro conjI)
qed

subsection \<open>C7\<close>

text \<open>
  C7. For every request whose study identifier fails the UID grammar, both route handlers
  answer with status 400 and the validation error, and the list of requests sent is the
  one before the request: the archive client is not invoked. (A call of the client always
  sends at least one request, so an unchanged list means no call.)
\<close>

theorem routes_validate_first:
  "\<not> isValidStudyInstanceUID uid \<Longrightarrow>
     caseBundleRoute env net db sent uid =
       (\<lparr>status_code = 400, payload = ErrorJson ''Invalid StudyInstanceUID format''\<rparr>, db, sent)
     \<and> orthancSeriesRoute env net sent uid =
       (\<lparr>status_code = 400, payload = ErrorJson ''Invalid StudyInstanceUID format''\<rparr>, sent)
     \<and> snd (fetchStudySeries env net sent uid) \<noteq> sent"
  using fetchStudySeries_sends[of sent env net uid]
  by (auto simp: caseBundleRoute_def orthancSeriesRoute_def)

theorem routes_validate_first_witness:
  "\<not> isValidStudyInstanceUID ''invalid-uid''
   \<and> caseBundleRoute None net_two_series caseBundles [] ''invalid-uid'' =
       (\<lparr>status_code = 400, payload = ErrorJson ''Invalid StudyInstanceUID format''\<rparr>, caseBundles, [])
   \<and> orthancSeriesRoute None net_two_series [] ''invalid-uid'' =
       (\<lparr>status_code = 400, payload = ErrorJson ''Invalid StudyInstanceUID format''\<rparr>, [])"
proof -
  have h: "\<not> isValidStudyInstanceUID ''invalid-uid''"
    by (simp add: isValidStudyInstanceUID_def dicomUidRegex_def in_range_def)
  from h routes_validate_first[OF h, of None net_two_series caseBundles "[]"]
  show ?thesis by blast
qed

subsection \<open>C8\<close>

text \<open>
  C8. For every server address and study identifier, when the find request succeeds with
  one or more record ids, \<open>fetchFromServer\<close> sends exactly two requests: the find request,
  and the series request for the first record id in the order the server returned.
\<close>

theorem fetchFromServer_first_record:
  assumes "find_answer net sent (baseUrl @ ''/tools/find'') \<lparr>Level = ''Study'', StudyInstanceUID = uid\<rparr> = Inr r"
    and "ok r" and "body r = Json (rid # rest)"
  shows "snd (fetchFromServer net sent baseUrl uid) =
           sent @ [POST (baseUrl @ ''/tools/find'') \<lparr>Level = ''Study'', StudyInstanceUID = uid\<rparr>,
                   GET (baseUrl @ ''/studies/'' @ rid @ ''/series'')]"
  using assms by (rule fetchFromServer_requests)

theorem fetchFromServer_first_record_witness:
  "snd (fetchFromServer net_two_series [] ''http://localhost:8042'' ''123'') =
     [] @ [POST (''http://localhost:8042'' @ ''/tools/find'') \<lparr>Level = ''Study'', StudyInstanceUID = ''123''\<rparr>,
           GET (''http://localhost:8042'' @ ''/studies/'' @ ''abc'' @ ''/series'')]"
proof -
  have h1: "find_answer net_two_series [] (''http://localhost:8042'' @ ''/tools/find'')
              \<lparr>Level = ''Study'', StudyInstanceUID = ''123''\<rparr>
            = Inr \<lparr>status = 200, body = Json (''abc'' # [''def''])\<rparr>"
    by (simp add: net_two_series_def)
  have h2: "ok \<lparr>status = 200, body = Json (''abc'' # [''def''])\<rparr>" by (simp add: ok_def)
  have h3: "body \<lparr>status = 200, body = Json (''abc'' # [''def''])\<rparr> = Json (''abc'' # [''def''])"
    by simp
  show ?thesis by (rule fetchFromServer_first_record[OF h1 h2 h3])
qed

subsection \<open>C9\<close>

text \<open>
  C9. For every study identifier present in the record store, if the archive fetch yields
  two well-formed groups carrying two series identifiers, the case bundle the handler
  returns is the stored record with \<open>imaging.series\<close> equal to exactly these two
  identifiers, in order, whatever list the record held before.
\<close>

theorem caseBundleRoute_overwrites_series:
  assumes "dom db = dom caseBundles" and "db uid = Some b"
    and "fetchStudySeries env net sent uid = (Some [g1, g2], sent')"
    and "wellFormed g1 u1" and "wellFormed g2 u2"
  shows "caseBundleRoute env net db sent uid =
           (\<lparr>status_code = 200,
             payload = CaseBundleJson (b\<lparr>imaging := (imaging b)\<lparr>series := [u1, u2]\<rparr>\<rparr>)\<rparr>,
            db(uid \<mapsto> b\<lparr>imaging := (imaging b)\<lparr>series := [u1, u2]\<rparr>\<rparr>),
            sent')"
proof -
  from assms(1,2) have "uid \<in> dom caseBundles" by auto
  then have v: "isValidStudyInstanceUID uid" by (rule stored_uid_valid)
  from assms(4,5) have "extractSeriesUids [g1, g2] = [u1, u2]"
    by (simp add: extract_wellFormed extract_Nil)
  with route_found[where db = db, OF v assms(2,3)] show ?thesis by simp
qed

theorem caseBundleRoute_overwrites_series_witness:
  "caseBundleRoute None net_two_series caseBundles [] ''123'' =
     (\<lparr>status_code = 200,
       payload = CaseBundleJson (case_P002\<lparr>imaging := (imaging case_P002)\<lparr>series := [''1.2.3'', ''1.2.4'']\<rparr>\<rparr>)\<rparr>,
      caseBundles(''123'' \<mapsto> case_P002\<lparr>imaging := (imaging case_P002)\<lparr>series := [''1.2.3'', ''1.2.4'']\<rparr>\<rparr>),
      [POST ''http://localhost:8042/tools/find'' \<lparr>Level = ''Study'', StudyInstanceUID = ''123''\<rparr>,
       GET ''http://localhost:8042/studies/abc/series''])
   \<and> series (imaging case_P002) = [''SERIES_UID_1'', ''SERIES_UID_2'']"
proof -
  have "series (imaging case_P002) = [''SERIES_UID_1'', ''SERIES_UID_2'']"
    by (simp add: case_P002_def)
  moreover note caseBundleRoute_overwrites_series[where db = caseBundles,
      OF refl caseBundles_123 run_two_series wellFormed_group wellFormed_group]
  ultimately show ?thesis by (intro conjI)
qed

subsection \<open>C10\<close>

text \<open>
  C10. For every study identifier present in the record store, if the archive fetch yields
  \<open>null\<close> or an empty sequence, the handler returns the record as stored and leaves the
  store as it was; a different response or store occurs only when the fetched sequence
  is non-empty.
\<close>

theorem caseBundleRoute_keeps_series:
  assumes "dom db = dom caseBundles" and "db uid = Some b"
  shows "(fst (fetchStudySeries env net sent uid) = None \<or> fst (fetchStudySeries env net sent uid) = Some []
            \<longrightarrow> caseBundleRoute env net db sent uid =
                  (\<lparr>status_code = 200, payload = CaseBundleJson b\<rparr>, db,
                   snd (fetchStudySeries env net sent uid)))
         \<and> (caseBundleRoute env net db sent uid \<noteq>
               (\<lparr>status_code = 200, payload = CaseBundleJson b\<rparr>, db,
                snd (fetchStudySeries env net sent uid))
            \<longrightarrow> (\<exists>g gs. fst (fetchStudySeries env net sent uid) = Some (g # gs)))"
proof -
  from assms have "uid \<in> dom caseBundles" by auto
  then have v: "isValidStudyInstanceUID uid" by (rule stored_uid_valid)
  obtain fetched sent' where f: "fetchStudySeries env net sent uid = (fetched, sent')"
    by (cases "fetchStudySeries env net sent uid")
  have keep: "caseBundleRoute env net db sent uid =
      (\<lparr>status_code = 200, payload = CaseBundleJson b\<rparr>, db, sent')"
    if "fetched = None \<or> fetched = Some []"
    using route_nothing[where db = db, OF v assms(2) f that] .
  have "fetched = None \<or> fetched = Some [] \<or> (\<exists>g gs. fetched = Some (g # gs))"
  proof (cases fetched)
    case None
    then show ?thesis by simp
  next
    case (Some xs)
    then show ?thesis by (cases xs) simp_all
  qed
  with keep f show ?thesis by auto
qed

theorem caseBundleRoute_keeps_series_witness:
  "fst (fetchStudySeries None net_down [] ''123'') = None
   \<and> caseBundleRoute None net_down caseBundles [] ''123'' =
       (\<lparr>status_code = 200, payload = CaseBundleJson case_P002\<rparr>, caseBundles,
        snd (fetchStudySeries None net_down [] ''123''))
   \<and> fst (fetchStudySeries None net_not_found [] ''123'') = Some []
   \<and> caseBundleRoute None net_not_found caseBundles [] ''123'' =
       (\<lparr>status_code = 200, payload = CaseBundleJson case_P002\<rparr>, caseBundles,
        snd (fetchStudySeries None net_not_found [] ''123''))
   \<and> caseBundleRoute None net_two_series caseBundles [] ''123'' \<noteq>
       (\<lparr>status_code = 200, payload = CaseBundleJson case_P002\<rparr>, caseBundles,
        snd (fetchStudySeries None net_two_series [] ''123''))
   \<and> fst (fetchStudySeries None net_two_series [] ''123'') = Some [group ''1.2.3'', group ''1.2.4'']"
proof -
  have h1: "fst (fetchStudySeries None net_down [] ''123'') = None"
    by (simp add: fetchStudySeries_def run_down)
  have h2: "fst (fetchStudySeries None net_not_found [] ''123'') = Some []"
    by (simp add: fetchStudySeries_def run_not_found)
  have h3: "fst (fetchStudySeries None net_two_series [] ''123'') = Some [group ''1.2.3'', group ''1.2.4'']"
    by (simp add: run_two_series)
  have h4: "caseBundleRoute None net_two_series caseBundles [] ''123'' \<noteq>
       (\<lparr>status_code = 200, payload = CaseBundleJson case_P002\<rparr>, caseBundles,
        snd (fetchStudySeries None net_two_series [] ''123''))"
    using overwritten_differs by (simp add: run_route_two_series)
  note k = caseBundleRoute_keeps_series[where db = caseBundles and uid = "''123''" and env = None
      and sent = "[]", OF refl caseBundles_123]
  from h1 k[of net_down] have c1: "caseBundleRoute None net_down caseBundles [] ''123'' =
       (\<lparr>status_code = 200, payload = CaseBundleJson case_P002\<rparr>, caseBundles,
        snd (fetchStudySeries None net_down [] ''123''))" by blast
  from h2 k[of net_not_found] have c2: "caseBundleRoute None net_not_found caseBundles [] ''123'' =
       (\<lparr>status_code = 200, payload = CaseBundleJson case_P002\<rparr>, caseBundles,
        snd (fetchStudySeries None net_not_found [] ''123''))" by blast
  from h1 c1 h2 c2 h4 h3 show ?thesis by (intro conjI)
qed

end
